theory Spec2Isabelle
  imports Complex_Main "HOL-Library.Log_Nat"
begin

section \<open>The platform: Number values\<close>

text \<open>
  The submit handler of \<^verbatim>\<open>main.ts\<close> computes \<^verbatim>\<open>Math.random()*1000\<close>. A finite Number is
  modelled by its exact rational value; the product of two Numbers is the exact product
  rounded to the nearest binary64 value, ties to the even significand. Only non-negative
  values below the overflow threshold arise (a draw is at least 0 and below 1).
\<close>

definition pow2 :: "int \<Rightarrow> rat" where
  "pow2 e = (if 0 \<le> e then 2 ^ nat e else 1 / 2 ^ nat (- e))"

text \<open>The binade of a positive rational: the integer \<open>e\<close> with \<open>2^e \<le> x < 2^(e+1)\<close>.\<close>

definition ilog2 :: "rat \<Rightarrow> int" where
  "ilog2 x = (if 1 \<le> x then bitlen \<lfloor>x\<rfloor> - 1 else - bitlen (\<lceil>1 / x\<rceil> - 1))"

definition round_half_even :: "rat \<Rightarrow> int" where
  "round_half_even y =
     (let f = \<lfloor>y\<rfloor>; d = y - of_int f in
      if d < 1 / 2 then f
      else if 1 / 2 < d then f + 1
      else if even f then f else f + 1)"

text \<open>
  Rounding to binary64: 53 significant bits, so the spacing in the binade \<open>e\<close> is
  \<open>2^(e-52)\<close>; below \<open>2^(-1022)\<close> (the subnormal range) the spacing stays \<open>2^(-1074)\<close>.
\<close>

definition to_double :: "rat \<Rightarrow> rat" where
  "to_double x =
     (if x = 0 then 0
      else let q = pow2 (max (ilog2 x) (- 1022) - 52)
           in of_int (round_half_even (x / q)) * q)"

text \<open>
  A non-negative rational below the overflow threshold is a Number exactly when rounding
  leaves it as it is.
\<close>

definition is_double :: "rat \<Rightarrow> bool" where
  "is_double x \<longleftrightarrow> to_double x = x"

text \<open>The operator \<^verbatim>\<open>*\<close> on two Numbers.\<close>

definition number_times :: "rat \<Rightarrow> rat \<Rightarrow> rat" where
  "number_times a b = to_double (a * b)"

section \<open>The to-do page: \<^verbatim>\<open>Todo TS/src/main.ts\<close>\<close>

text \<open>\<^verbatim>\<open>interface Todo { title:string, isCompleted:boolean, readonly id:string }\<close>\<close>

record Todo =
  title :: string
  isCompleted :: bool
  id_todo :: string

text \<open>
  \<^verbatim>\<open>todoInput\<close> is \<^verbatim>\<open>document.getElementsByName("title")[0]\<close>: the element when the page
  has one of that name, \<^verbatim>\<open>undefined\<close> otherwise. The handler reads only its \<^verbatim>\<open>value\<close>.
\<close>

record HTMLFormElement =
  value_of :: string

record SubmitEvent =
  defaultPrevented :: bool

datatype error = TypeError

datatype completion = Normal | Throw error

text \<open>What the handler does to the outside, in the order it does it.\<close>

datatype effect =
    PreventDefault
  | ReadValue string
  | MathRandom rat
  | Push Todo
  | ConsoleLog "Todo list"

text \<open>
  The module state: the array \<^verbatim>\<open>todos\<close> (declared \<^verbatim>\<open>Array<string>\<close>, yet the values pushed
  are the \<^verbatim>\<open>Todo\<close> objects, which is what it holds when the page runs), the console
  output, and the record of effects.
\<close>

record program =
  todos :: "Todo list"
  console :: "Todo list list"
  effects :: "effect list"

definition init :: program where
  "init = \<lparr>todos = [], console = [], effects = []\<rparr>"

text \<open>
  \<^verbatim>\<open>myForm.onsubmit\<close>. The parameters are what the handler takes from the platform: \<open>str\<close>
  is \<^verbatim>\<open>String\<close> on Numbers, \<open>todoInput\<close> the module constant, \<open>random\<close> the value
  \<^verbatim>\<open>Math.random()\<close> returns in this call. Reading \<^verbatim>\<open>todoInput.value\<close> of \<^verbatim>\<open>undefined\<close>
  throws a \<^verbatim>\<open>TypeError\<close>, after \<^verbatim>\<open>e.preventDefault()\<close> has run.
\<close>

definition onsubmit ::
  "(rat \<Rightarrow> string) \<Rightarrow> HTMLFormElement option \<Rightarrow> rat \<Rightarrow> SubmitEvent \<Rightarrow> program
     \<Rightarrow> completion \<times> SubmitEvent \<times> program" where
  "onsubmit str todoInput random e p =
     (let e1 = e\<lparr>defaultPrevented := True\<rparr>;
          p1 = p\<lparr>effects := effects p @ [PreventDefault]\<rparr>
      in case todoInput of
           None \<Rightarrow> (Throw TypeError, e1, p1)
         | Some el \<Rightarrow>
             let p2 = p1\<lparr>effects := effects p1 @ [ReadValue (value_of el), MathRandom random]\<rparr>;
                 todo = \<lparr>title = value_of el, isCompleted = False,
                         id_todo = str (number_times random 1000)\<rparr>;
                 p3 = p2\<lparr>todos := todos p2 @ [todo], effects := effects p2 @ [Push todo]\<rparr>;
                 p4 = p3\<lparr>console := console p3 @ [todos p3],
                         effects := effects p3 @ [ConsoleLog (todos p3)]\<rparr>
             in (Normal, e1, p4))"

text \<open>
  A run of the page: one submit event after the other, each with the title field as it is
  at that moment and the draw of that call. An exception thrown by a handler is reported by
  the browser and the page goes on.
\<close>

fun submit_all ::
  "(rat \<Rightarrow> string) \<Rightarrow> (HTMLFormElement option \<times> rat) list \<Rightarrow> program \<Rightarrow> program" where
  "submit_all str [] p = p"
| "submit_all str ((el, r) # subs) p =
     submit_all str subs (snd (snd (onsubmit str el r \<lparr>defaultPrevented = False\<rparr> p)))"

section \<open>The input component: \<^verbatim>\<open>InputFeild\<close>\<close>

text \<open>
  \<^verbatim>\<open>interface Props { todo: string; setTodo: React.Dispatch<React.SetStateAction<string>>;
  handleAdd: (e: React.FormEvent) => void }\<close>. A callback acts on the state \<open>'s\<close> of the
  caller; \<open>'e\<close> is the event it is given.
\<close>

datatype SetStateAction = NewValue string | Updater "string \<Rightarrow> string"

record ('e, 's) Props =
  todo :: string
  setTodo :: "SetStateAction \<Rightarrow> 's \<Rightarrow> 's"
  handleAdd :: "'e \<Rightarrow> 's \<Rightarrow> 's"

text \<open>What a JSX expression evaluates to: an element with its props, in the order written,
  and its children.\<close>

datatype ('e, 's) attr = Str string | Handler "'e \<Rightarrow> 's \<Rightarrow> 's"

datatype ('e, 's) vnode =
    Element string "(string \<times> ('e, 's) attr) list" "('e, 's) vnode list"
  | Text string

fun tag_of :: "('e, 's) vnode \<Rightarrow> string" where
  "tag_of (Element t as cs) = t"
| "tag_of (Text s) = []"

fun attrs_of :: "('e, 's) vnode \<Rightarrow> (string \<times> ('e, 's) attr) list" where
  "attrs_of (Element t as cs) = as"
| "attrs_of (Text s) = []"

fun children_of :: "('e, 's) vnode \<Rightarrow> ('e, 's) vnode list" where
  "children_of (Element t as cs) = cs"
| "children_of (Text s) = []"

text \<open>
  The component. React calls it with the props, in the context of the hook state \<open>'h\<close> of
  the component instance; the body calls no hook, so that state is handed back as it came.
  The body uses \<^verbatim>\<open>handleAdd\<close> alone, as the \<^verbatim>\<open>onSubmit\<close> prop of the \<^verbatim>\<open>input\<close> element.
\<close>

definition InputFeild :: "('e, 's) Props \<Rightarrow> 'h \<Rightarrow> ('e, 's) vnode \<times> 'h" where
  "InputFeild props h =
     (Element ''form'' [(''className'', Str ''input'')]
        [Element ''input''
           [(''type'', Str ''input''), (''placeholder'', Str ''Enter a Task''),
            (''className'', Str ''input__box''), (''onSubmit'', Handler (handleAdd props))]
           [],
         Element ''button''
           [(''className'', Str ''input_submit''), (''type'', Str ''submit'')]
           [Text ''Go'']],
      h)"

subsection \<open>Event dispatch\<close>

text \<open>
  An event is fired at a target element, given by the child indices that lead to it from
  the root, and then bubbles: the handlers called are those registered under the event's
  prop name on the target and on its ancestors, the target's first.
\<close>

fun handler_of :: "string \<Rightarrow> ('e, 's) vnode \<Rightarrow> ('e \<Rightarrow> 's \<Rightarrow> 's) list" where
  "handler_of name (Element t as cs) =
     (case map_of as name of Some (Handler f) \<Rightarrow> [f] | _ \<Rightarrow> [])"
| "handler_of name (Text s) = []"

fun handlers_to :: "string \<Rightarrow> ('e, 's) vnode \<Rightarrow> nat list \<Rightarrow> ('e \<Rightarrow> 's \<Rightarrow> 's) list" where
  "handlers_to name n [] = handler_of name n"
| "handlers_to name n (i # path) =
     (if i < length (children_of n)
      then handlers_to name (children_of n ! i) path @ handler_of name n
      else [])"

definition dispatch :: "string \<Rightarrow> ('e, 's) vnode \<Rightarrow> nat list \<Rightarrow> 'e \<Rightarrow> 's \<Rightarrow> 's" where
  "dispatch name tree path e s = fold (\<lambda>f. f e) (handlers_to name tree path) s"

text \<open>
  Submitting a form, by its submit button or by Enter in one of its text fields, fires the
  \<^verbatim>\<open>submit\<close> event at the form element itself. The form rendered by the component is the
  root of its output.
\<close>

definition submit_form :: "('e, 's) vnode \<Rightarrow> 'e \<Rightarrow> 's \<Rightarrow> 's" where
  "submit_form tree e s = dispatch ''onSubmit'' tree [] e s"

section \<open>Number values: the range of a product\<close>

lemma pow2_powi: "pow2 e = 2 powi e"
  by (simp add: pow2_def power_int_def power_one_over inverse_eq_divide)

lemma pow2_pos: "0 < pow2 e"
  by (simp add: pow2_powi)

lemma pow2_add: "pow2 (a + b) = pow2 a * pow2 b"
  by (simp add: pow2_powi power_int_add)

lemma pow2_mono: "a \<le> b \<Longrightarrow> pow2 a \<le> pow2 b"
  by (simp add: pow2_powi power_int_increasing)

lemma pow2_nat: "0 \<le> e \<Longrightarrow> pow2 e = 2 ^ nat e"
  by (simp add: pow2_def)

lemma pow2_neg: "0 \<le> e \<Longrightarrow> pow2 (- e) = 1 / 2 ^ nat e"
  by (cases "e = 0") (simp_all add: pow2_def)

lemma of_int_pow2_le: "2 ^ k \<le> (n::int) \<Longrightarrow> (2::rat) ^ k \<le> of_int n"
proof -
  assume "2 ^ k \<le> n"
  then have "(of_int (2 ^ k) :: rat) \<le> of_int n" by (simp only: of_int_le_iff)
  then show ?thesis by (simp only: of_int_power of_int_numeral)
qed

lemma of_int_le_pow2: "(n::int) \<le> 2 ^ k \<Longrightarrow> (of_int n :: rat) \<le> 2 ^ k"
proof -
  assume "n \<le> 2 ^ k"
  then have "(of_int n :: rat) \<le> of_int (2 ^ k)" by (simp only: of_int_le_iff)
  then show ?thesis by (simp only: of_int_power of_int_numeral)
qed

lemma ilog2_ge1:
  assumes "1 \<le> x"
  shows "pow2 (ilog2 x) \<le> x" and "x < pow2 (ilog2 x + 1)"
proof -
  from assms have fl: "0 < \<lfloor>x\<rfloor>" by simp
  have b1: "1 \<le> bitlen \<lfloor>x\<rfloor>" using fl by (simp add: bitlen_alt_def)
  from bitlen_bounds [OF fl]
  have lo: "2 ^ nat (bitlen \<lfloor>x\<rfloor> - 1) \<le> \<lfloor>x\<rfloor>" and hi: "\<lfloor>x\<rfloor> < 2 ^ nat (bitlen \<lfloor>x\<rfloor>)"
    by simp_all
  have "(2::rat) ^ nat (bitlen \<lfloor>x\<rfloor> - 1) \<le> of_int \<lfloor>x\<rfloor>" by (rule of_int_pow2_le [OF lo])
  also have "\<dots> \<le> x" by simp
  finally show "pow2 (ilog2 x) \<le> x" using assms b1 by (simp add: ilog2_def pow2_nat)
  from hi have "\<lfloor>x\<rfloor> + 1 \<le> 2 ^ nat (bitlen \<lfloor>x\<rfloor>)" by simp
  then have "(of_int (\<lfloor>x\<rfloor> + 1) :: rat) \<le> 2 ^ nat (bitlen \<lfloor>x\<rfloor>)" by (rule of_int_le_pow2)
  moreover have "x < of_int (\<lfloor>x\<rfloor> + 1)" by linarith
  ultimately have "x < 2 ^ nat (bitlen \<lfloor>x\<rfloor>)" by linarith
  then show "x < pow2 (ilog2 x + 1)" using assms b1 by (simp add: ilog2_def pow2_nat)
qed

lemma ilog2_lt1:
  assumes "0 < x" "x < 1"
  shows "pow2 (ilog2 x) \<le> x" and "x < pow2 (ilog2 x + 1)"
proof -
  define y where "y = 1 / x"
  define n where "n = \<lceil>y\<rceil> - 1"
  define b where "b = bitlen n"
  have y1: "1 < y" using assms by (simp add: y_def)
  then have "2 \<le> \<lceil>y\<rceil>" by linarith
  then have n0: "0 < n" by (simp add: n_def)
  have b1: "1 \<le> b" using n0 by (simp add: b_def bitlen_alt_def)
  from bitlen_bounds [OF n0]
  have lo: "2 ^ nat (b - 1) \<le> n" and hi: "n < 2 ^ nat b" by (simp_all add: b_def)
  have il: "ilog2 x = - b" using assms by (simp add: ilog2_def b_def n_def y_def)
  from hi have "n + 1 \<le> 2 ^ nat b" by simp
  then have "(of_int (n + 1) :: rat) \<le> 2 ^ nat b" by (rule of_int_le_pow2)
  moreover have "y \<le> of_int (n + 1)" by (simp add: n_def)
  ultimately have "y \<le> 2 ^ nat b" by linarith
  then have "1 / 2 ^ nat b \<le> x" using assms by (simp add: y_def field_simps)
  then show "pow2 (ilog2 x) \<le> x" using b1 by (simp add: il pow2_neg)
  have "(2::rat) ^ nat (b - 1) \<le> of_int n" by (rule of_int_pow2_le [OF lo])
  moreover have "of_int n < y" unfolding n_def by linarith
  ultimately have "2 ^ nat (b - 1) < y" by linarith
  then have "x < 1 / 2 ^ nat (b - 1)" using assms by (simp add: y_def field_simps)
  moreover have "pow2 (- b + 1) = 1 / 2 ^ nat (b - 1)"
    using pow2_neg [of "b - 1"] b1 by simp
  ultimately show "x < pow2 (ilog2 x + 1)" by (simp add: il)
qed

lemma ilog2_bounds:
  assumes "0 < x"
  shows "pow2 (ilog2 x) \<le> x" and "x < pow2 (ilog2 x + 1)"
  using assms ilog2_ge1 [of x] ilog2_lt1 [of x] by (cases "1 \<le> x"; simp)+

lemma round_half_even_le: "of_int (round_half_even y) \<le> y + 1 / 2"
  unfolding round_half_even_def Let_def
  by (cases "y - of_int \<lfloor>y\<rfloor> < 1 / 2"; cases "1 / 2 < y - of_int \<lfloor>y\<rfloor>"; cases "even \<lfloor>y\<rfloor>";
      simp; linarith)

lemma round_half_even_ge: "y - 1 / 2 \<le> of_int (round_half_even y)"
  unfolding round_half_even_def Let_def
  by (cases "y - of_int \<lfloor>y\<rfloor> < 1 / 2"; cases "1 / 2 < y - of_int \<lfloor>y\<rfloor>"; cases "even \<lfloor>y\<rfloor>";
      simp; linarith)

lemma round_half_even_nonneg: "0 \<le> y \<Longrightarrow> 0 \<le> round_half_even y"
  by (auto simp: round_half_even_def Let_def)

lemma round_half_even_of_int: "round_half_even (of_int k) = k"
  by (simp add: round_half_even_def)

lemma ilog2_less: 
  assumes "0 < x" "x < pow2 k" shows "ilog2 x < k"
proof (rule ccontr)
  assume "\<not> ilog2 x < k"
  then have "pow2 k \<le> pow2 (ilog2 x)" by (simp add: pow2_mono)
  also have "\<dots> \<le> x" by (rule ilog2_bounds(1) [OF assms(1)])
  finally show False using assms(2) by simp
qed

lemma to_double_nonneg: "0 \<le> x \<Longrightarrow> 0 \<le> to_double x"
  by (simp add: to_double_def Let_def round_half_even_nonneg pow2_pos less_imp_le)

lemma to_double_le:
  assumes "x \<noteq> 0"
  shows "to_double x \<le> x + pow2 (max (ilog2 x) (- 1022) - 52) / 2"
proof -
  define q where "q = pow2 (max (ilog2 x) (- 1022) - 52)"
  have q: "0 < q" by (simp add: q_def pow2_pos)
  have "of_int (round_half_even (x / q)) * q \<le> (x / q + 1 / 2) * q"
    using round_half_even_le [of "x / q"] q by (simp only: mult_le_cancel_right_pos)
  also have "\<dots> = x + q / 2" using q by (simp add: field_simps)
  finally show ?thesis using assms by (simp add: to_double_def Let_def q_def)
qed

lemma half_step: "a \<le> x + q / 2 \<Longrightarrow> q \<le> c \<Longrightarrow> a \<le> x + c / (2::rat)"
  by linarith

lemma to_double_below_1000:
  assumes "0 \<le> x" "x \<le> 1000 - 1000 / 2 ^ 53"
  shows "to_double x < 1000"
proof (cases "x = 0")
  case True
  then show ?thesis by (simp add: to_double_def)
next
  case False
  with assms have pos: "0 < x" by simp
  have "x < pow2 10" using assms(2) by (simp add: pow2_def)
  from ilog2_less [OF pos this] have "max (ilog2 x) (- 1022) - 52 \<le> - 43" by simp
  then have "pow2 (max (ilog2 x) (- 1022) - 52) \<le> pow2 (- 43)" by (rule pow2_mono)
  then have "pow2 (max (ilog2 x) (- 1022) - 52) \<le> 1 / 2 ^ 43" by (simp add: pow2_def)
  with to_double_le [OF False] have "to_double x \<le> x + (1 / 2 ^ 43) / 2" by (rule half_step)
  with assms(2) show ?thesis by simp
qed

lemma double_below_one:
  assumes "is_double r" "0 \<le> r" "r < 1"
  shows "r \<le> 1 - 1 / 2 ^ 53"
proof (cases "r = 0")
  case True
  then show ?thesis by simp
next
  case False
  with assms have pos: "0 < r" by simp
  have "r < pow2 0" using assms(3) by (simp add: pow2_def)
  from ilog2_less [OF pos this] have le: "ilog2 r \<le> - 1" by simp
  show ?thesis
  proof (cases "ilog2 r = - 1")
    case True
    define k where "k = round_half_even (r / pow2 (- 53))"
    have q: "pow2 (- 53) = 1 / 2 ^ 53" by (simp add: pow2_def)
    have "to_double r = of_int k * pow2 (- 53)"
      using False True by (simp add: to_double_def Let_def k_def)
    with assms(1) have r: "r = of_int k / 2 ^ 53" by (simp add: is_double_def q)
    with assms(3) have "(of_int k :: rat) < 2 ^ 53" by (simp add: field_simps)
    then have "(of_int k :: rat) < of_int (2 ^ 53)" by simp
    then have "k < 2 ^ 53" by (simp only: of_int_less_iff)
    then have "k \<le> 2 ^ 53 - 1" by simp
    then have "(of_int k :: rat) \<le> of_int (2 ^ 53 - 1)" by (simp only: of_int_le_iff)
    then have "(of_int k :: rat) \<le> 2 ^ 53 - 1" by simp
    then show ?thesis by (simp add: r field_simps)
  next
    case False
    with le have "ilog2 r + 1 \<le> - 1" by simp
    then have "pow2 (ilog2 r + 1) \<le> pow2 (- 1)" by (rule pow2_mono)
    with ilog2_bounds(2) [OF pos] have "r < pow2 (- 1)" by linarith
    then have "r < 1 / 2" by (simp add: pow2_def)
    then show ?thesis by simp
  qed
qed

lemma random_times_1000:
  assumes "is_double r" "0 \<le> r" "r < 1"
  shows "0 \<le> number_times r 1000" and "number_times r 1000 < 1000"
proof -
  show "0 \<le> number_times r 1000"
    using assms(2) by (simp add: number_times_def to_double_nonneg)
  from double_below_one [OF assms] have "r * 1000 \<le> 1000 - 1000 / 2 ^ 53" by simp
  moreover have "0 \<le> r * 1000" using assms(2) by simp
  ultimately show "number_times r 1000 < 1000"
    unfolding number_times_def by (rule to_double_below_1000 [rotated])
qed

lemma ilog2_eq:
  assumes "0 < z" "pow2 e \<le> z" "z < pow2 (e + 1)"
  shows "ilog2 z = e"
proof -
  have "ilog2 z < e + 1" by (rule ilog2_less [OF assms(1) assms(3)])
  moreover have "e \<le> ilog2 z"
  proof (rule ccontr)
    assume "\<not> e \<le> ilog2 z"
    then have "pow2 (ilog2 z + 1) \<le> pow2 e" by (simp add: pow2_mono)
    with ilog2_bounds(2) [OF assms(1)] assms(2) show False by linarith
  qed
  ultimately show ?thesis by simp
qed

lemma round_half_even_le_int: "y \<le> of_int n \<Longrightarrow> round_half_even y \<le> n"
proof -
  assume a: "y \<le> of_int n"
  then have f: "\<lfloor>y\<rfloor> \<le> n" by linarith
  show ?thesis
  proof (cases "\<lfloor>y\<rfloor> = n")
    case True
    with a have "y = of_int n" by linarith
    then show ?thesis by (simp add: round_half_even_of_int)
  next
    case False
    with f have "\<lfloor>y\<rfloor> + 1 \<le> n" by simp
    then show ?thesis by (simp add: round_half_even_def Let_def)
  qed
qed

lemma round_half_even_ge_int: "of_int n \<le> y \<Longrightarrow> n \<le> round_half_even y"
proof -
  assume "of_int n \<le> y"
  then have "n \<le> \<lfloor>y\<rfloor>" by (simp add: le_floor_iff)
  then show ?thesis by (simp add: round_half_even_def Let_def)
qed

lemma pow2_52: "pow2 (e + 1) = 2 ^ 53 * pow2 (e - 52)" "pow2 e = 2 ^ 52 * pow2 (e - 52)"
proof -
  have "e + 1 = 53 + (e - 52)" by simp
  then have "pow2 (e + 1) = pow2 (53 + (e - 52))" by (rule arg_cong)
  also have "\<dots> = pow2 53 * pow2 (e - 52)" by (rule pow2_add)
  finally show "pow2 (e + 1) = 2 ^ 53 * pow2 (e - 52)" by (simp add: pow2_def)
  have "e = 52 + (e - 52)" by simp
  then have "pow2 e = pow2 (52 + (e - 52))" by (rule arg_cong)
  also have "\<dots> = pow2 52 * pow2 (e - 52)" by (rule pow2_add)
  finally show "pow2 e = 2 ^ 52 * pow2 (e - 52)" by (simp add: pow2_def)
qed

lemma to_double_zero: "to_double 0 = 0"
  by (simp add: to_double_def)

lemma to_double_idem:
  assumes "0 \<le> x"
  shows "to_double (to_double x) = to_double x"
proof (cases "x = 0")
  case True
  then show ?thesis by (simp add: to_double_def)
next
  case False
  with assms have pos: "0 < x" by simp
  define e where "e = max (ilog2 x) (- 1022)"
  define q where "q = pow2 (e - 52)"
  define k where "k = round_half_even (x / q)"
  define z where "z = of_int k * q"
  have q: "0 < q" by (simp add: q_def pow2_pos)
  have zx: "to_double x = z" using False by (simp add: to_double_def Let_def z_def k_def q_def e_def)
  have k0: "0 \<le> k" unfolding k_def using pos q by (intro round_half_even_nonneg) simp
  have e1022: "- 1022 \<le> e" by (simp add: e_def)
  have "x < pow2 (ilog2 x + 1)" by (rule ilog2_bounds(2) [OF pos])
  also have "\<dots> \<le> pow2 (e + 1)" by (rule pow2_mono) (simp add: e_def)
  finally have "x < 2 ^ 53 * q" by (simp add: pow2_52(1) q_def)
  then have "x / q \<le> of_int (2 ^ 53)" using q by (simp add: field_simps)
  then have khi: "k \<le> 2 ^ 53" unfolding k_def by (rule round_half_even_le_int)
  show ?thesis
  proof (cases "k = 0")
    case True
    then have "to_double x = 0" by (simp add: zx z_def)
    then show ?thesis by (simp only: to_double_zero)
  next
    case kn: False
    with k0 have kpos: "0 < k" by simp
    then have zpos: "0 < z" using q by (simp add: z_def)
    show ?thesis
    proof (cases "k = 2 ^ 53")
      case True
      then have z1: "z = pow2 (e + 1)" by (simp add: z_def pow2_52(1) q_def)
      have "pow2 (e + 1 + 1) = 2 * pow2 (e + 1)"
        using pow2_add [of 1 "e + 1"] by (simp add: pow2_def add.commute)
      then have "z < pow2 (e + 1 + 1)" using zpos by (simp add: z1)
      with zpos have il: "ilog2 z = e + 1" by (intro ilog2_eq) (simp_all add: z1)
      have q2: "pow2 (e - 51) = 2 * q"
        using pow2_add [of 1 "e - 52"] by (simp add: pow2_def q_def add.commute)
      have mm: "max (ilog2 z) (- 1022) - 52 = e - 51" using il e1022 by simp
      have "z / (2 * q) = of_int (2 ^ 52)" using q True by (simp add: z_def)
      then have r: "round_half_even (z / (2 * q)) = 2 ^ 52" by (simp only: round_half_even_of_int)
      have "to_double z = of_int (round_half_even (z / pow2 (max (ilog2 z) (- 1022) - 52)))
              * pow2 (max (ilog2 z) (- 1022) - 52)"
        using zpos by (simp add: to_double_def Let_def)
      also have "\<dots> = of_int (round_half_even (z / (2 * q))) * (2 * q)"
        by (simp only: mm q2)
      also have "\<dots> = 2 ^ 52 * (2 * q)" by (simp only: r) simp
      also have "\<dots> = z" using True by (simp add: z_def)
      finally show ?thesis by (simp add: zx)
    next
      case False
      with khi have "k < 2 ^ 53" by simp
      then have "(of_int k :: rat) < of_int (2 ^ 53)" by (simp only: of_int_less_iff)
      then have "z < 2 ^ 53 * q" using q by (simp add: z_def)
      then have zlt: "z < pow2 (e + 1)" by (simp add: pow2_52(1) q_def)
      have m: "max (ilog2 z) (- 1022) = e"
      proof (cases "- 1022 \<le> ilog2 x")
        case True
        then have ex: "e = ilog2 x" by (simp add: e_def)
        have "pow2 e \<le> x" unfolding ex by (rule ilog2_bounds(1) [OF pos])
        then have "of_int (2 ^ 52) \<le> x / q" using q by (simp add: pow2_52(2) [of e] q_def field_simps)
        then have "2 ^ 52 \<le> k" unfolding k_def by (rule round_half_even_ge_int)
        then have "(of_int (2 ^ 52) :: rat) \<le> of_int k" by (simp only: of_int_le_iff)
        then have "2 ^ 52 * q \<le> z" using q by (simp add: z_def)
        then have "pow2 e \<le> z" by (simp add: pow2_52(2) [of e] q_def)
        from ilog2_eq [OF zpos this zlt] show ?thesis using e1022 by simp
      next
        case False
        then have ex: "e = - 1022" by (simp add: e_def)
        from ilog2_less [OF zpos zlt] show ?thesis by (simp add: ex)
      qed
      have "z / q = of_int k" using q by (simp add: z_def)
      then have r: "round_half_even (z / q) = k" by (simp only: round_half_even_of_int)
      have mq: "pow2 (max (ilog2 z) (- 1022) - 52) = q" by (simp only: m q_def)
      have "to_double z = of_int (round_half_even (z / pow2 (max (ilog2 z) (- 1022) - 52)))
              * pow2 (max (ilog2 z) (- 1022) - 52)"
        using zpos by (simp add: to_double_def Let_def)
      also have "\<dots> = of_int (round_half_even (z / q)) * q" by (simp only: mq)
      also have "\<dots> = of_int k * q" by (simp only: r)
      also have "\<dots> = z" by (simp only: z_def)
      finally have "to_double z = z" .
      then show ?thesis by (simp add: zx)
    qed
  qed
qed

lemma number_times_double: "0 \<le> a * b \<Longrightarrow> is_double (number_times a b)"
  by (simp add: is_double_def number_times_def to_double_idem)

lemma number_times_half: "number_times (1 / 2) 1000 = 500"
  by code_simp

lemma number_times_three_quarters: "number_times (3 / 4) 1000 = 750"
  by code_simp

lemma is_double_half: "is_double (1 / 2)"
  by code_simp

lemma is_double_three_quarters: "is_double (3 / 4)"
  by code_simp

section \<open>Properties of the submit handler\<close>

lemma onsubmit_Some:
  "onsubmit str (Some el) r e p =
     (let todo = \<lparr>title = value_of el, isCompleted = False,
                  id_todo = str (number_times r 1000)\<rparr>
      in (Normal, e\<lparr>defaultPrevented := True\<rparr>,
          \<lparr>todos = todos p @ [todo],
           console = console p @ [todos p @ [todo]],
           effects = effects p @ [PreventDefault, ReadValue (value_of el), MathRandom r,
                                  Push todo, ConsoleLog (todos p @ [todo])]\<rparr>))"
  by (simp add: onsubmit_def Let_def)

lemma onsubmit_None:
  "onsubmit str None r e p =
     (Throw TypeError, e\<lparr>defaultPrevented := True\<rparr>,
      p\<lparr>effects := effects p @ [PreventDefault]\<rparr>)"
  by (simp add: onsubmit_def Let_def)

lemma todos_onsubmit:
  "todos (snd (snd (onsubmit str todoInput r e p))) =
     (case todoInput of
        None \<Rightarrow> todos p
      | Some el \<Rightarrow> todos p @ [\<lparr>title = value_of el, isCompleted = False,
                                id_todo = str (number_times r 1000)\<rparr>])"
  by (cases todoInput) (simp_all add: onsubmit_Some onsubmit_None Let_def)

lemma todos_submit_all_extends: "\<exists>ys. todos (submit_all str subs p) = todos p @ ys"
proof (induction subs arbitrary: p)
  case Nil
  show ?case by simp
next
  case (Cons s subs)
  obtain el r where s: "s = (el, r)" by (cases s)
  from Cons.IH [of "snd (snd (onsubmit str el r \<lparr>defaultPrevented = False\<rparr> p))"]
  show ?case by (cases el) (auto simp: s todos_onsubmit)
qed

lemma length_todos_submit_all:
  "\<forall>s\<in>set subs. fst s \<noteq> None \<Longrightarrow>
     length (todos (submit_all str subs p)) = length (todos p) + length subs"
proof (induction subs arbitrary: p)
  case Nil
  show ?case by simp
next
  case (Cons s subs)
  obtain el r where s: "s = (el, r)" by (cases s)
  with Cons.prems obtain x where el: "el = Some x" by auto
  from Cons.prems have "\<forall>s\<in>set subs. fst s \<noteq> None" by simp
  from Cons.IH [OF this, of "snd (snd (onsubmit str el r \<lparr>defaultPrevented = False\<rparr> p))"]
  show ?case by (simp add: s el todos_onsubmit)
qed

text \<open>
  C1. When the title field holds the text \<open>t\<close>, the handler appends exactly one record to
  \<^verbatim>\<open>todos\<close>: its title is \<open>t\<close>, its \<^verbatim>\<open>isCompleted\<close> is false and its identifier is a
  non-empty string. The identifier is what \<^verbatim>\<open>String\<close> returns, and \<^verbatim>\<open>String\<close> of a Number
  is never the empty string: that property of the platform is the hypothesis.
\<close>

theorem onsubmit_appends_record:
  assumes "\<forall>x. str x \<noteq> []"
  shows "\<exists>i. i \<noteq> [] \<and>
           todos (snd (snd (onsubmit str (Some \<lparr>value_of = t\<rparr>) r e p))) =
             todos p @ [\<lparr>title = t, isCompleted = False, id_todo = i\<rparr>]"
  using assms by (simp add: todos_onsubmit)

theorem onsubmit_appends_record_witness:
  "(\<forall>x. (\<lambda>x::rat. if x = 500 then ''500'' else ''750'') x \<noteq> []) \<and>
   (\<exists>i. i \<noteq> [] \<and>
      todos (snd (snd (onsubmit (\<lambda>x. if x = 500 then ''500'' else ''750'')
         (Some \<lparr>value_of = ''buy milk''\<rparr>) (1 / 2) \<lparr>defaultPrevented = False\<rparr> init))) =
        todos init @ [\<lparr>title = ''buy milk'', isCompleted = False, id_todo = i\<rparr>])"
  using onsubmit_appends_record [of "\<lambda>x. if x = 500 then ''500'' else ''750''" "''buy milk''"
      "1 / 2" "\<lparr>defaultPrevented = False\<rparr>" init]
  by simp

text \<open>
  C3. A submission with the title field in the page makes \<^verbatim>\<open>todos\<close> longer by exactly one;
  no call of the handler, and no run of submissions, makes it shorter; and from the empty
  array, a run of \<open>n\<close> submissions with the title field in the page leaves \<open>n\<close> records.
\<close>

theorem todos_length_grows:
  "length (todos (snd (snd (onsubmit str (Some el) r e p)))) = length (todos p) + 1
   \<and> length (todos p) \<le> length (todos (snd (snd (onsubmit str todoInput r e p))))
   \<and> length (todos p) \<le> length (todos (submit_all str subs p))
   \<and> ((\<forall>s\<in>set subs. fst s \<noteq> None) \<longrightarrow>
        length (todos (submit_all str subs init)) = length subs)"
proof -
  have "length (todos p) \<le> length (todos (snd (snd (onsubmit str todoInput r e p))))"
    by (cases todoInput) (simp_all add: todos_onsubmit)
  moreover have "length (todos p) \<le> length (todos (submit_all str subs p))"
    using todos_submit_all_extends [of str subs p] by auto
  moreover have "(\<forall>s\<in>set subs. fst s \<noteq> None) \<longrightarrow>
        length (todos (submit_all str subs init)) = length subs"
    using length_todos_submit_all [of subs str init] by (simp add: init_def)
  ultimately show ?thesis by (simp add: todos_onsubmit)
qed

theorem todos_length_grows_witness:
  "fst (Some \<lparr>value_of = ''buy milk''\<rparr>, 1 / 2 :: rat) \<noteq> None \<and>
   fst (Some \<lparr>value_of = ''''\<rparr>, 3 / 4 :: rat) \<noteq> None \<and>
   length (todos (submit_all (\<lambda>x. if x = 500 then ''500'' else ''750'')
     [(Some \<lparr>value_of = ''buy milk''\<rparr>, 1 / 2), (Some \<lparr>value_of = ''''\<rparr>, 3 / 4)] init)) = 2"
  using todos_length_grows [of "\<lambda>x. if x = 500 then ''500'' else ''750''"
      "\<lparr>value_of = ''buy milk''\<rparr>" "1 / 2" "\<lparr>defaultPrevented = False\<rparr>" init None
      "[(Some \<lparr>value_of = ''buy milk''\<rparr>, 1 / 2), (Some \<lparr>value_of = ''''\<rparr>, 3 / 4)]"]
  by simp

text \<open>
  C4. Records are append-only: after a call of the handler, and after any run of
  submissions, the records that were in \<^verbatim>\<open>todos\<close> before are its first elements, unchanged
  and in the same order.
\<close>

theorem todos_append_only:
  "take (length (todos p)) (todos (snd (snd (onsubmit str todoInput r e p)))) = todos p
   \<and> take (length (todos p)) (todos (submit_all str subs p)) = todos p"
proof -
  have "take (length (todos p)) (todos (snd (snd (onsubmit str todoInput r e p)))) = todos p"
    by (cases todoInput) (simp_all add: todos_onsubmit)
  moreover have "take (length (todos p)) (todos (submit_all str subs p)) = todos p"
    using todos_submit_all_extends [of str subs p] by auto
  ultimately show ?thesis by simp
qed

text \<open>
  C5. The handler, in this order: prevents the default action of the event, reads the text
  of the title field, builds one record of title, \<^verbatim>\<open>isCompleted\<close> and identifier, appends it
  to \<^verbatim>\<open>todos\<close>, and writes the whole array, the new record included, to the console.
\<close>

theorem onsubmit_effects_in_order:
  "onsubmit str (Some \<lparr>value_of = t\<rparr>) r e p =
     (let todo = \<lparr>title = t, isCompleted = False, id_todo = str (number_times r 1000)\<rparr>
      in (Normal, e\<lparr>defaultPrevented := True\<rparr>,
          \<lparr>todos = todos p @ [todo],
           console = console p @ [todos p @ [todo]],
           effects = effects p @ [PreventDefault, ReadValue t, MathRandom r,
                                  Push todo, ConsoleLog (todos p @ [todo])]\<rparr>))"
  by (simp add: onsubmit_Some)

text \<open>
  C6. No text of the title field makes the handler fail: it completes normally on every
  value, and on the empty string it appends a record whose title is the empty string.
\<close>

theorem onsubmit_accepts_any_title:
  "fst (onsubmit str (Some \<lparr>value_of = v\<rparr>) r e p) = Normal
   \<and> todos (snd (snd (onsubmit str (Some \<lparr>value_of = ''''\<rparr>) r e p))) =
       todos p @ [\<lparr>title = '''', isCompleted = False, id_todo = str (number_times r 1000)\<rparr>]"
  by (simp add: onsubmit_Some Let_def)

lemma todos_records:
  assumes "\<forall>s\<in>set subs. is_double (snd s) \<and> 0 \<le> snd s \<and> snd s < 1"
    and "\<forall>t\<in>set (todos p). isCompleted t = False \<and>
           (\<exists>x. is_double x \<and> 0 \<le> x \<and> x < 1000 \<and> id_todo t = str x)"
  shows "\<forall>t\<in>set (todos (submit_all str subs p)). isCompleted t = False \<and>
           (\<exists>x. is_double x \<and> 0 \<le> x \<and> x < 1000 \<and> id_todo t = str x)"
  using assms
proof (induction subs arbitrary: p)
  case Nil
  then show ?case by simp
next
  case (Cons s subs)
  obtain el r where s: "s = (el, r)" by (cases s)
  let ?p = "snd (snd (onsubmit str el r \<lparr>defaultPrevented = False\<rparr> p))"
  from Cons.prems(1) have r: "is_double r" "0 \<le> r" "r < 1" by (simp_all add: s)
  have x: "is_double (number_times r 1000)" "0 \<le> number_times r 1000" "number_times r 1000 < 1000"
    using r by (simp_all add: number_times_double random_times_1000)
  have "\<forall>t\<in>set (todos ?p). isCompleted t = False \<and>
           (\<exists>x. is_double x \<and> 0 \<le> x \<and> x < 1000 \<and> id_todo t = str x)"
  proof (cases el)
    case None
    with Cons.prems(2) show ?thesis by (simp add: todos_onsubmit)
  next
    case (Some a)
    with Cons.prems(2) x show ?thesis by (auto simp: todos_onsubmit)
  qed
  moreover from Cons.prems(1) have "\<forall>s\<in>set subs. is_double (snd s) \<and> 0 \<le> snd s \<and> snd s < 1"
    by simp
  ultimately show ?case using Cons.IH [of ?p] by (simp add: s)
qed

text \<open>
  C10. Invariant of \<^verbatim>\<open>todos\<close>. Start from the empty array and let every draw be what
  \<^verbatim>\<open>Math.random()\<close> can return, a Number that is at least 0 and below 1. After any run of
  submissions every element of \<^verbatim>\<open>todos\<close> is a record of the three fields, its
  \<^verbatim>\<open>isCompleted\<close> is false, and its identifier is \<^verbatim>\<open>String\<close> of a Number in the half-open
  interval from 0 to 1000.
\<close>

theorem todos_invariant:
  assumes "\<forall>s\<in>set subs. is_double (snd s) \<and> 0 \<le> snd s \<and> snd s < 1"
  shows "\<forall>t\<in>set (todos (submit_all str subs init)). isCompleted t = False \<and>
           (\<exists>x. is_double x \<and> 0 \<le> x \<and> x < 1000 \<and> id_todo t = str x)"
  by (rule todos_records [OF assms]) (simp add: init_def)

theorem todos_invariant_witness:
  "is_double (1 / 2) \<and> (0::rat) \<le> 1 / 2 \<and> (1 / 2 :: rat) < 1 \<and>
   is_double (3 / 4) \<and> (0::rat) \<le> 3 / 4 \<and> (3 / 4 :: rat) < 1 \<and>
   todos (submit_all (\<lambda>x. if x = 500 then ''500'' else ''750'')
     [(Some \<lparr>value_of = ''buy milk''\<rparr>, 1 / 2), (None, 3 / 4), (Some \<lparr>value_of = ''''\<rparr>, 3 / 4)] init) =
     [\<lparr>title = ''buy milk'', isCompleted = False, id_todo = ''500''\<rparr>,
      \<lparr>title = '''', isCompleted = False, id_todo = ''750''\<rparr>] \<and>
   (\<exists>x. is_double x \<and> 0 \<le> x \<and> x < 1000 \<and> ''500'' = (\<lambda>x::rat. if x = 500 then ''500'' else ''750'') x) \<and>
   (\<exists>x. is_double x \<and> 0 \<le> x \<and> x < 1000 \<and> ''750'' = (\<lambda>x::rat. if x = 500 then ''500'' else ''750'') x)"
proof -
  have h: "\<forall>s\<in>set [(Some \<lparr>value_of = ''buy milk''\<rparr>, 1 / 2 :: rat), (None, 3 / 4),
                     (Some \<lparr>value_of = ''''\<rparr>, 3 / 4)].
             is_double (snd s) \<and> 0 \<le> snd s \<and> snd s < 1"
    by (simp add: is_double_half is_double_three_quarters)
  have t: "todos (submit_all (\<lambda>x. if x = 500 then ''500'' else ''750'')
     [(Some \<lparr>value_of = ''buy milk''\<rparr>, 1 / 2), (None, 3 / 4), (Some \<lparr>value_of = ''''\<rparr>, 3 / 4)] init) =
     [\<lparr>title = ''buy milk'', isCompleted = False, id_todo = ''500''\<rparr>,
      \<lparr>title = '''', isCompleted = False, id_todo = ''750''\<rparr>]"
    by (simp add: todos_onsubmit init_def number_times_half number_times_three_quarters)
  from todos_invariant [OF h, of "\<lambda>x. if x = 500 then ''500'' else ''750''"] h t
  show ?thesis by simp
qed

lemma colliding_draws:
  "number_times (3 / 4 + 21 / 2 ^ 53) 1000 = number_times (3 / 4 + 22 / 2 ^ 53) 1000"
  by code_simp

lemma colliding_draws_double:
  "is_double (3 / 4 + 21 / 2 ^ 53)" "is_double (3 / 4 + 22 / 2 ^ 53)"
  by code_simp+

text \<open>
  C7. Identifiers are not unique. The identifier of a record is \<^verbatim>\<open>String\<close> of the draw
  times 1000, so two submissions that draw the same Number leave two records with the same
  identifier. Two different draws can do so as well, whatever \<^verbatim>\<open>String\<close> is: the products
  of \<open>3/4 + 21/2^53\<close> and of \<open>3/4 + 22/2^53\<close> with 1000 round to the same Number.
\<close>

theorem duplicate_ids_possible:
  "(let ts = todos (submit_all str [(Some a, r), (Some b, r)] init)
    in length ts = 2 \<and> id_todo (ts ! 0) = str (number_times r 1000)
       \<and> id_todo (ts ! 1) = id_todo (ts ! 0))
   \<and> (let r1 = 3 / 4 + 21 / 2 ^ 53; r2 = 3 / 4 + 22 / 2 ^ 53;
           ts = todos (submit_all str [(Some a, r1), (Some b, r2)] init)
       in r1 \<noteq> r2 \<and> is_double r1 \<and> 0 \<le> r1 \<and> r1 < 1 \<and> is_double r2 \<and> 0 \<le> r2 \<and> r2 < 1
          \<and> length ts = 2 \<and> id_todo (ts ! 1) = id_todo (ts ! 0))"
  using colliding_draws colliding_draws_double
  by (simp add: Let_def todos_onsubmit init_def)

section \<open>Properties of the input component\<close>

lemma submit_form_InputFeild: "submit_form (fst (InputFeild props h)) e s = s"
  by (simp add: submit_form_def dispatch_def InputFeild_def)

lemma dispatch_input_InputFeild:
  "dispatch ''onSubmit'' (fst (InputFeild props h)) [0] e s = handleAdd props e s"
  by (simp add: dispatch_def InputFeild_def)

lemma InputFeild_shape:
  "map tag_of (children_of (fst (InputFeild props h))) = [''input'', ''button'']
   \<and> tag_of (fst (InputFeild props h)) = ''form''
   \<and> map_of (attrs_of (children_of (fst (InputFeild props h)) ! 1)) ''type'' = Some (Str ''submit'')"
  by (simp add: InputFeild_def)

text \<open>
  C2. The component renders a form with one text field and one submit button
  (\<open>InputFeild_shape\<close>), but \<^verbatim>\<open>handleAdd\<close> is the \<^verbatim>\<open>onSubmit\<close> prop of the \<^verbatim>\<open>input\<close>
  element and not of the form. The submit event is fired at the form, the \<^verbatim>\<open>input\<close> is
  not on its way up, and the callback is not called: with a callback that counts its calls,
  the count is still 0 after the form is submitted, where one call would make it 1.
\<close>

theorem InputFeild_submit_skips_handleAdd:
  "submit_form
     (fst (InputFeild \<lparr>todo = ''buy milk'', setTodo = (\<lambda>a s. s),
                       handleAdd = (\<lambda>(e::unit) (n::nat). Suc n)\<rparr> ())) () 0 = 0
   \<and> handleAdd \<lparr>todo = ''buy milk'', setTodo = (\<lambda>a s. s),
                  handleAdd = (\<lambda>(e::unit) (n::nat). Suc n)\<rparr> () 0 = 1"
  by (simp add: submit_form_InputFeild)

text \<open>
  C8. The component is stateless and deterministic, and it validates nothing. Two renders
  whose props agree in \<^verbatim>\<open>todo\<close>, \<^verbatim>\<open>setTodo\<close> and \<^verbatim>\<open>handleAdd\<close> give the same output, whatever
  else a function component could read while it renders (the hook state of the two
  component instances), and a render leaves that state as it was. For every props value,
  the empty text included, the output is the form with the text field and the submit
  button, and no other text in \<^verbatim>\<open>todo\<close> makes the component render anything else.
\<close>

theorem InputFeild_stateless:
  "todo p1 = todo p2 \<Longrightarrow> setTodo p1 = setTodo p2 \<Longrightarrow> handleAdd p1 = handleAdd p2 \<Longrightarrow>
     fst (InputFeild p1 h1) = fst (InputFeild p2 h2)
     \<and> snd (InputFeild p1 h1) = h1
     \<and> tag_of (fst (InputFeild p1 h1)) = ''form''
     \<and> map tag_of (children_of (fst (InputFeild p1 h1))) = [''input'', ''button'']
     \<and> map_of (attrs_of (children_of (fst (InputFeild p1 h1)) ! 1)) ''type'' = Some (Str ''submit'')
     \<and> fst (InputFeild (p1\<lparr>todo := t\<rparr>) h1) = fst (InputFeild p1 h1)"
  by (simp add: InputFeild_def)

theorem InputFeild_stateless_witness:
  "todo \<lparr>todo = '''', setTodo = (\<lambda>a s. s), handleAdd = (\<lambda>(e::unit) (n::nat). Suc n)\<rparr> =
   todo (\<lparr>todo = ''buy milk'', setTodo = (\<lambda>a s. s),
          handleAdd = (\<lambda>(e::unit) (n::nat). Suc n)\<rparr>\<lparr>todo := ''''\<rparr>)
   \<and> setTodo \<lparr>todo = '''', setTodo = (\<lambda>a s. s), handleAdd = (\<lambda>(e::unit) (n::nat). Suc n)\<rparr> =
     setTodo (\<lparr>todo = ''buy milk'', setTodo = (\<lambda>a s. s),
          handleAdd = (\<lambda>(e::unit) (n::nat). Suc n)\<rparr>\<lparr>todo := ''''\<rparr>)
   \<and> handleAdd \<lparr>todo = '''', setTodo = (\<lambda>a s. s), handleAdd = (\<lambda>(e::unit) (n::nat). Suc n)\<rparr> =
     handleAdd (\<lparr>todo = ''buy milk'', setTodo = (\<lambda>a s. s),
          handleAdd = (\<lambda>(e::unit) (n::nat). Suc n)\<rparr>\<lparr>todo := ''''\<rparr>)
   \<and> fst (InputFeild \<lparr>todo = '''', setTodo = (\<lambda>a s. s),
                        handleAdd = (\<lambda>(e::unit) (n::nat). Suc n)\<rparr> (0::nat)) =
     fst (InputFeild (\<lparr>todo = ''buy milk'', setTodo = (\<lambda>a s. s),
                        handleAdd = (\<lambda>(e::unit) (n::nat). Suc n)\<rparr>\<lparr>todo := ''''\<rparr>) True)
   \<and> snd (InputFeild \<lparr>todo = '''', setTodo = (\<lambda>a s. s),
                        handleAdd = (\<lambda>(e::unit) (n::nat). Suc n)\<rparr> (0::nat)) = 0
   \<and> map tag_of (children_of (fst (InputFeild \<lparr>todo = '''', setTodo = (\<lambda>a s. s),
                        handleAdd = (\<lambda>(e::unit) (n::nat). Suc n)\<rparr> (0::nat)))) =
       [''input'', ''button'']
   \<and> fst (InputFeild (\<lparr>todo = '''', setTodo = (\<lambda>a s. s),
                        handleAdd = (\<lambda>(e::unit) (n::nat). Suc n)\<rparr>\<lparr>todo := ''buy milk''\<rparr>) (0::nat)) =
     fst (InputFeild \<lparr>todo = '''', setTodo = (\<lambda>a s. s),
                        handleAdd = (\<lambda>(e::unit) (n::nat). Suc n)\<rparr> (0::nat))"
  using InputFeild_stateless [of
      "\<lparr>todo = '''', setTodo = (\<lambda>a s. s), handleAdd = (\<lambda>(e::unit) (n::nat). Suc n)\<rparr>"
      "\<lparr>todo = ''buy milk'', setTodo = (\<lambda>a s. s),
        handleAdd = (\<lambda>(e::unit) (n::nat). Suc n)\<rparr>\<lparr>todo := ''''\<rparr>"
      "0::nat" "True" "''buy milk''"]
  by (simp add: InputFeild_def)

text \<open>
  C9. The output does not depend on \<^verbatim>\<open>todo\<close> and \<^verbatim>\<open>setTodo\<close>: props that agree on
  \<^verbatim>\<open>handleAdd\<close> render the same form, and the input box has neither a \<^verbatim>\<open>value\<close> nor a
  \<^verbatim>\<open>defaultValue\<close> prop, so the current text is not shown in it.
\<close>

theorem InputFeild_ignores_todo_setTodo:
  "handleAdd p1 = handleAdd p2 \<Longrightarrow>
     fst (InputFeild p1 h1) = fst (InputFeild p2 h2)
     \<and> map_of (attrs_of (children_of (fst (InputFeild p1 h1)) ! 0)) ''value'' = None
     \<and> map_of (attrs_of (children_of (fst (InputFeild p1 h1)) ! 0)) ''defaultValue'' = None"
  by (simp add: InputFeild_def)

theorem InputFeild_ignores_todo_setTodo_witness:
  "handleAdd \<lparr>todo = ''buy milk'', setTodo = (\<lambda>a s. s), handleAdd = (\<lambda>(e::unit) (n::nat). Suc n)\<rparr> =
   handleAdd \<lparr>todo = ''feed cat'', setTodo = (\<lambda>a s. 0), handleAdd = (\<lambda>(e::unit) (n::nat). Suc n)\<rparr>
   \<and> fst (InputFeild \<lparr>todo = ''buy milk'', setTodo = (\<lambda>a s. s),
                        handleAdd = (\<lambda>(e::unit) (n::nat). Suc n)\<rparr> ()) =
     fst (InputFeild \<lparr>todo = ''feed cat'', setTodo = (\<lambda>a s. 0),
                        handleAdd = (\<lambda>(e::unit) (n::nat). Suc n)\<rparr> ())"
  using InputFeild_ignores_todo_setTodo [of
      "\<lparr>todo = ''buy milk'', setTodo = (\<lambda>a s. s), handleAdd = (\<lambda>(e::unit) (n::nat). Suc n)\<rparr>"
      "\<lparr>todo = ''feed cat'', setTodo = (\<lambda>a s. 0), handleAdd = (\<lambda>(e::unit) (n::nat). Suc n)\<rparr>"
      "()" "()"]
  by simp

end
